theory Spec2Isabelle
  imports Main
begin

section \<open>JavaScript values, errors and settled promises\<close>

text \<open>
  An error object as the code inspects it: the errors rejected by the ethers calls carry
  an optional \<open>reason\<close> property; \<open>TypeError\<close> and \<open>RangeError\<close> are the
  built-in errors the language itself throws (they have no \<open>reason\<close>).
\<close>

datatype js_error = RpcError "string option" | TypeError | RangeError

fun reason :: "js_error \<Rightarrow> string option" where
  "reason (RpcError r) = r"
| "reason TypeError = None"
| "reason RangeError = None"

text \<open>
  What \<open>withRetry\<close> can resolve to: the value of the wrapped call, \<open>null\<close>, or
  \<open>undefined\<close> (falling off the end of the function).
\<close>

datatype 'a js_value = Value 'a | Null | Undefined

text \<open>
  A settled promise is \<open>Inl\<close> of the rejection or \<open>Inr\<close> of the fulfilment value.
  An asynchronous operation that can be invoked repeatedly is the sequence of its
  settlements: \<open>fn k\<close> is how its invocation number \<open>k\<close> (from zero) settles.
\<close>

type_synonym 'a promise = "js_error + 'a"

type_synonym 'a operation = "nat \<Rightarrow> 'a promise"

section \<open>Configuration\<close>

record config =
  CONCURRENT_REQUESTS :: nat
  OWNER_BATCH_SIZE :: nat
  BALANCE_BATCH_SIZE :: nat
  RETRY_ATTEMPTS :: nat
  RETRY_DELAY :: nat

definition CONFIG :: config where
  "CONFIG = \<lparr>CONCURRENT_REQUESTS = 25, OWNER_BATCH_SIZE = 150, BALANCE_BATCH_SIZE = 75,
     RETRY_ATTEMPTS = 3, RETRY_DELAY = 1000\<rparr>"

section \<open>withRetry\<close>

text \<open>
  The result of one \<open>withRetry\<close> call together with its effects: how the returned
  promise settles, how many times the wrapped operation was invoked, and the delays (in
  milliseconds) slept between attempts, in order.
\<close>

record 'a retry_run =
  outcome :: "'a js_value promise"
  calls :: nat
  sleeps :: "nat list"

definition nonexistent_token :: string where
  "nonexistent_token = ''ERC721: owner query for nonexistent token''"

text \<open>
  The \<open>for\<close> loop of \<open>withRetry\<close>, entered at index \<open>i\<close> with the delays \<open>ds\<close>
  slept so far. Iteration \<open>i\<close> makes invocation number \<open>i\<close> of the operation.
\<close>

function withRetry_loop ::
  "config \<Rightarrow> 'a operation \<Rightarrow> nat \<Rightarrow> nat \<Rightarrow> nat list \<Rightarrow> 'a retry_run" where
  "withRetry_loop cfg fn retries i ds =
     (if i < retries then
        (case fn i of
           Inr v \<Rightarrow> \<lparr>outcome = Inr (Value v), calls = Suc i, sleeps = ds\<rparr>
         | Inl error \<Rightarrow>
             if reason error = Some nonexistent_token
             then \<lparr>outcome = Inr Null, calls = Suc i, sleeps = ds\<rparr>
             else if i = retries - 1
             then \<lparr>outcome = Inl error, calls = Suc i, sleeps = ds\<rparr>
             else withRetry_loop cfg fn retries (Suc i) (ds @ [RETRY_DELAY cfg * 2 ^ i]))
      else \<lparr>outcome = Inr Undefined, calls = i, sleeps = ds\<rparr>)"
  by pat_completeness auto
termination
  by (relation "measure (\<lambda>(cfg, fn, retries, i, ds). retries - i)") auto

declare withRetry_loop.simps [simp del]

definition withRetry :: "config \<Rightarrow> 'a operation \<Rightarrow> nat \<Rightarrow> 'a retry_run" where
  "withRetry cfg fn retries = withRetry_loop cfg fn retries 0 []"

text \<open>
  An attempt fails transiently when it rejects with an error that does not carry the
  nonexistent-token reason. \<open>backoffs cfg k\<close> are the delays slept after the first
  \<open>k\<close> failed attempts: \<open>RETRY_DELAY * 2^0, ..., RETRY_DELAY * 2^(k-1)\<close>.
\<close>

definition fails_transiently :: "'a promise \<Rightarrow> bool" where
  "fails_transiently p =
     (case p of Inl e \<Rightarrow> reason e \<noteq> Some nonexistent_token | Inr v \<Rightarrow> False)"

definition backoffs :: "config \<Rightarrow> nat \<Rightarrow> nat list" where
  "backoffs cfg k = map (\<lambda>i. RETRY_DELAY cfg * 2 ^ i) [0..<k]"

section \<open>Arrays, chunk, Promise.all and Set\<close>

text \<open>
  \<open>Array.from({ length: len }, (_, i) => f(i))\<close>. An array length above
  \<open>2^32 - 1\<close> is refused with a \<open>RangeError\<close> (a length that is \<open>Infinity\<close> is
  clamped to \<open>2^53 - 1\<close> first, and refused as well).
\<close>

definition Array_from :: "nat \<Rightarrow> (nat \<Rightarrow> 'a) \<Rightarrow> 'a list promise" where
  "Array_from len f = (if 4294967295 < len then Inl RangeError else Inr (map f [0..<len]))"

text \<open>\<open>arr.slice(start, end)\<close> for \<open>0 \<le> start \<le> end\<close>; both bounds are clamped to the length.\<close>

definition slice :: "'a list \<Rightarrow> nat \<Rightarrow> nat \<Rightarrow> 'a list" where
  "slice arr start end' = take (end' - start) (drop start arr)"

text \<open>
  \<open>chunk(arr, size)\<close>. With \<open>size = 0\<close> the length \<open>Math.ceil(arr.length / 0)\<close> is
  \<open>NaN\<close> for an empty array (a length of zero) and \<open>Infinity\<close> otherwise (a
  \<open>RangeError\<close>).
\<close>

definition chunk :: "'a list \<Rightarrow> nat \<Rightarrow> 'a list list promise" where
  "chunk arr size' =
     (if size' = 0 then (if arr = [] then Inr [] else Inl RangeError)
      else Array_from ((length arr + size' - 1) div size')
             (\<lambda>i. slice arr (i * size') (i * size' + size')))"

text \<open>
  A function of the analyzer either returns, or throws. Which error an awaited
  \<open>Promise.all\<close> throws when several of its promises reject depends on which rejected
  first in time; the model keeps every rejection, in item order: \<open>Inl es\<close> says that
  the call throws one of \<open>es\<close>.
\<close>

type_synonym 'a completion = "js_error list + 'a"

fun rejections :: "'a promise list \<Rightarrow> js_error list" where
  "rejections [] = []"
| "rejections (Inl e # ps) = e # rejections ps"
| "rejections (Inr v # ps) = rejections ps"

fun fulfilments :: "'a promise list \<Rightarrow> 'a list" where
  "fulfilments [] = []"
| "fulfilments (Inl e # ps) = fulfilments ps"
| "fulfilments (Inr v # ps) = v # fulfilments ps"

definition Promise_all :: "'a promise list \<Rightarrow> 'a list completion" where
  "Promise_all ps = (if rejections ps = [] then Inr (fulfilments ps) else Inl (rejections ps))"

text \<open>
  A JavaScript \<open>Set\<close>, as the list of its elements in insertion order (the order
  \<open>[...set]\<close> spreads them in). \<open>add\<close> compares with SameValueZero: on strings,
  equality of the character sequences.
\<close>

definition Set_add :: "'a list \<Rightarrow> 'a \<Rightarrow> 'a list" where
  "Set_add s v = (if v \<in> set s then s else s @ [v])"

section \<open>The remote collaborators\<close>

text \<open>
  The contract and the provider: \<open>contract.totalSupply()\<close>, \<open>contract.ownerOf(tokenId)\<close>
  and \<open>provider.getBalance(address)\<close>, each an asynchronous call that fulfils or rejects.
  \<open>ownerOf c tokenId k\<close> is the settlement of call number \<open>k\<close> made for \<open>tokenId\<close>, and
  likewise for \<open>getBalance\<close>. \<open>p-limit\<close>'s \<open>this.limit(task)\<close> settles as \<open>task()\<close>
  does (it only delays the start of the task), so it does not appear below.
\<close>

record client =
  totalSupply :: "nat promise"
  ownerOf :: "nat \<Rightarrow> string operation"
  getBalance :: "string js_value \<Rightarrow> int operation"

section \<open>getUniqueHolders\<close>

record holders_state =
  uniqueHolders :: "string js_value list"
  processedTokens :: nat
  skippedTokens :: nat

text \<open>The callback of \<open>owners.forEach\<close>.\<close>

definition absorb_owner :: "string js_value \<Rightarrow> holders_state \<Rightarrow> holders_state" where
  "absorb_owner owner s =
     (if owner = Null then s\<lparr>skippedTokens := skippedTokens s + 1\<rparr>
      else s\<lparr>uniqueHolders := Set_add (uniqueHolders s) owner\<rparr>)"

definition lookupOwner :: "config \<Rightarrow> client \<Rightarrow> nat \<Rightarrow> string js_value promise" where
  "lookupOwner cfg c tokenId = outcome (withRetry cfg (ownerOf c tokenId) (RETRY_ATTEMPTS cfg))"

text \<open>The loop \<open>for (const batch of batches)\<close> of \<open>getUniqueHolders\<close>.\<close>

fun owner_batches ::
  "config \<Rightarrow> client \<Rightarrow> nat list list \<Rightarrow> holders_state \<Rightarrow> holders_state completion" where
  "owner_batches cfg c [] s = Inr s"
| "owner_batches cfg c (batch # batches) s =
     (case Promise_all (map (lookupOwner cfg c) batch) of
        Inl es \<Rightarrow> Inl es
      | Inr owners \<Rightarrow>
          owner_batches cfg c batches
            ((fold absorb_owner owners s)
               \<lparr>processedTokens := processedTokens (fold absorb_owner owners s) + length batch\<rparr>))"

text \<open>
  \<open>getUniqueHolders\<close> up to its \<open>return\<close>, with the local counters. A total supply of
  \<open>2^32\<close> or more converts to a number that is no valid array length.
\<close>

definition getUniqueHolders_run :: "config \<Rightarrow> client \<Rightarrow> holders_state completion" where
  "getUniqueHolders_run cfg c =
     (case totalSupply c of
        Inl e \<Rightarrow> Inl [e]
      | Inr totalSupplyNum \<Rightarrow>
          (case Array_from totalSupplyNum (\<lambda>i. i + 1) of
             Inl e \<Rightarrow> Inl [e]
           | Inr tokenIds \<Rightarrow>
               (case chunk tokenIds (OWNER_BATCH_SIZE cfg) of
                  Inl e \<Rightarrow> Inl [e]
                | Inr batches \<Rightarrow>
                    owner_batches cfg c batches
                      \<lparr>uniqueHolders = [], processedTokens = 0, skippedTokens = 0\<rparr>)))"

definition getUniqueHolders :: "config \<Rightarrow> client \<Rightarrow> string js_value list completion" where
  "getUniqueHolders cfg c = map_sum id uniqueHolders (getUniqueHolders_run cfg c)"

section \<open>calculateTotalETHForHolders\<close>

record balance_state =
  totalETH :: int
  processedHolders :: nat
  failedBalanceChecks :: nat

text \<open>\<open>BigInt(v)\<close>: a bigint converts to itself; \<open>null\<close> and \<open>undefined\<close> throw.\<close>

fun BigInt :: "int js_value \<Rightarrow> int promise" where
  "BigInt (Value n) = Inr n"
| "BigInt Null = Inl TypeError"
| "BigInt Undefined = Inl TypeError"

text \<open>The callback of \<open>balances.forEach\<close>, which can throw.\<close>

definition absorb_balance :: "int js_value \<Rightarrow> balance_state \<Rightarrow> balance_state promise" where
  "absorb_balance balance s =
     (if balance = Null then Inr (s\<lparr>failedBalanceChecks := failedBalanceChecks s + 1\<rparr>)
      else (case BigInt balance of
              Inl e \<Rightarrow> Inl e
            | Inr n \<Rightarrow> Inr (s\<lparr>totalETH := totalETH s + n\<rparr>)))"

fun forEach :: "('a \<Rightarrow> 's \<Rightarrow> 's promise) \<Rightarrow> 'a list \<Rightarrow> 's \<Rightarrow> 's promise" where
  "forEach f [] s = Inr s"
| "forEach f (x # xs) s = (case f x s of Inl e \<Rightarrow> Inl e | Inr s' \<Rightarrow> forEach f xs s')"

definition lookupBalance :: "config \<Rightarrow> client \<Rightarrow> string js_value \<Rightarrow> int js_value promise" where
  "lookupBalance cfg c address =
     outcome (withRetry cfg (getBalance c address) (RETRY_ATTEMPTS cfg))"

text \<open>The loop \<open>for (const batch of batches)\<close> of \<open>calculateTotalETHForHolders\<close>.\<close>

fun balance_batches ::
  "config \<Rightarrow> client \<Rightarrow> string js_value list list \<Rightarrow> balance_state \<Rightarrow> balance_state completion"
  where
  "balance_batches cfg c [] s = Inr s"
| "balance_batches cfg c (batch # batches) s =
     (case Promise_all (map (lookupBalance cfg c) batch) of
        Inl es \<Rightarrow> Inl es
      | Inr balances \<Rightarrow>
          (case forEach absorb_balance balances s of
             Inl e \<Rightarrow> Inl [e]
           | Inr s' \<Rightarrow>
               balance_batches cfg c batches
                 (s'\<lparr>processedHolders := processedHolders s' + length batch\<rparr>)))"

text \<open>
  The part of \<open>calculateTotalETHForHolders\<close> after the holders are known (from
  \<open>chunk(uniqueHolders, CONFIG.BALANCE_BATCH_SIZE)\<close> to the end of the loop), with its
  local variables.
\<close>

definition aggregateBalances ::
  "config \<Rightarrow> client \<Rightarrow> string js_value list \<Rightarrow> balance_state completion" where
  "aggregateBalances cfg c uniqueHolders' =
     (case chunk uniqueHolders' (BALANCE_BATCH_SIZE cfg) of
        Inl e \<Rightarrow> Inl [e]
      | Inr batches \<Rightarrow>
          balance_batches cfg c batches
            \<lparr>totalETH = 0, processedHolders = 0, failedBalanceChecks = 0\<rparr>)"

text \<open>
  \<open>ethers.formatEther\<close> is a function of the ethers library: the decimal string of a
  number of wei in ether, that is with 18 fractional digits, of which the trailing zeros
  are dropped but for one (\<open>15\<close> wei is \<open>0.000000000000000015\<close>, zero is \<open>0.0\<close>).
\<close>

function decimal :: "nat \<Rightarrow> string" where
  "decimal n =
     (if n < 10 then [''0123456789'' ! n]
      else decimal (n div 10) @ [''0123456789'' ! (n mod 10)])"
  by pat_completeness auto
termination
  by (relation "measure id") auto

declare decimal.simps [simp del]

definition trim_zeros :: "string \<Rightarrow> string" where
  "trim_zeros s =
     (let t = rev (dropWhile (\<lambda>ch. ch = CHR ''0'') (rev s)) in if t = [] then ''0'' else t)"

definition formatEther :: "int \<Rightarrow> string" where
  "formatEther wei =
     (let n = nat \<bar>wei\<bar>;
          fraction = decimal (n mod 10 ^ 18)
      in (if wei < 0 then ''-'' else [])
         @ decimal (n div 10 ^ 18) @ ''.''
         @ trim_zeros (replicate (18 - length fraction) (CHR ''0'') @ fraction))"

text \<open>
  The whole of \<open>calculateTotalETHForHolders(epochTime)\<close> up to its \<open>return\<close>: the
  holders, and the local variables of the balance loop.
\<close>

definition calculateTotalETHForHolders_run ::
  "config \<Rightarrow> client \<Rightarrow> nat \<Rightarrow> (string js_value list \<times> balance_state) completion" where
  "calculateTotalETHForHolders_run cfg c epochTime =
     (case getUniqueHolders cfg c of
        Inl es \<Rightarrow> Inl es
      | Inr uniqueHolders' \<Rightarrow>
          (case aggregateBalances cfg c uniqueHolders' of
             Inl es \<Rightarrow> Inl es
           | Inr s \<Rightarrow> Inr (uniqueHolders', s)))"

text \<open>What \<open>calculateTotalETHForHolders(epochTime)\<close> returns: \<open>formattedTotal\<close>.\<close>

definition calculateTotalETHForHolders :: "config \<Rightarrow> client \<Rightarrow> nat \<Rightarrow> string completion" where
  "calculateTotalETHForHolders cfg c epochTime =
     map_sum id (\<lambda>(uniqueHolders', s). formatEther (totalETH s))
       (calculateTotalETHForHolders_run cfg c epochTime)"

section \<open>Notions used in the statements\<close>

text \<open>What a call returned, or \<open>None\<close> when it threw.\<close>

definition result_of :: "'a completion \<Rightarrow> 'a option" where
  "result_of r = (case r of Inl es \<Rightarrow> None | Inr v \<Rightarrow> Some v)"

text \<open>The local variables of the two loops as they are initialised.\<close>

definition holders_init :: holders_state where
  "holders_init = \<lparr>uniqueHolders = [], processedTokens = 0, skippedTokens = 0\<rparr>"

definition balance_init :: balance_state where
  "balance_init = \<lparr>totalETH = 0, processedHolders = 0, failedBalanceChecks = 0\<rparr>"

text \<open>
  The state of the loop of \<open>getUniqueHolders\<close> after the owners \<open>owners\<close> (the
  fulfilment values of the lookups of some batches, in item order) have been absorbed,
  starting from \<open>s\<close>.
\<close>

definition holders_after :: "string js_value list \<Rightarrow> holders_state \<Rightarrow> holders_state" where
  "holders_after owners s =
     \<lparr>uniqueHolders =
        fold (\<lambda>owner hs. Set_add hs owner) (filter (\<lambda>owner. owner \<noteq> Null) owners) (uniqueHolders s),
      processedTokens = processedTokens s + length owners,
      skippedTokens = skippedTokens s + length (filter (\<lambda>owner. owner = Null) owners)\<rparr>"

text \<open>
  What one resolved balance adds to \<open>totalETH\<close>, what a settled balance lookup adds,
  and the state of the balance loop after the balances \<open>balances\<close> have been absorbed.
\<close>

definition contribution :: "int js_value \<Rightarrow> int" where
  "contribution balance = (case balance of Value n \<Rightarrow> n | Null \<Rightarrow> 0 | Undefined \<Rightarrow> 0)"

definition balance_of :: "int js_value promise \<Rightarrow> int" where
  "balance_of p = (case p of Inl e \<Rightarrow> 0 | Inr balance \<Rightarrow> contribution balance)"

definition balances_after :: "int js_value list \<Rightarrow> balance_state \<Rightarrow> balance_state" where
  "balances_after balances s =
     \<lparr>totalETH = totalETH s + sum_list (map contribution balances),
      processedHolders = processedHolders s + length balances,
      failedBalanceChecks =
        failedBalanceChecks s + length (filter (\<lambda>balance. balance = Null) balances)\<rparr>"

section \<open>Example clients\<close>

text \<open>
  Five tokens: tokens 1 and 2 belong to \<open>A\<close>, token 3 to \<open>B\<close>, token 4 does not exist,
  token 5 belongs to \<open>C\<close>; the balances are 10, 0 and 5 wei.
\<close>

definition scenario_client :: client where
  "scenario_client =
     \<lparr>totalSupply = Inr 5,
      ownerOf = (\<lambda>tokenId k.
        if tokenId = 1 \<or> tokenId = 2 then Inr ''A''
        else if tokenId = 3 then Inr ''B''
        else if tokenId = 4 then Inl (RpcError (Some nonexistent_token))
        else Inr ''C''),
      getBalance = (\<lambda>address k.
        if address = Value ''A'' then Inr 10
        else if address = Value ''B'' then Inr 0
        else Inr 5)\<rparr>"

text \<open>
  Three tokens of three owners, whose balances are \<open>2^53 + 1\<close>, \<open>1\<close> and \<open>2^64\<close> wei.
\<close>

definition large_client :: client where
  "large_client =
     \<lparr>totalSupply = Inr 3,
      ownerOf = (\<lambda>tokenId k.
        if tokenId = 1 then Inr ''A'' else if tokenId = 2 then Inr ''B'' else Inr ''C''),
      getBalance = (\<lambda>address k.
        if address = Value ''A'' then Inr 9007199254740993
        else if address = Value ''B'' then Inr 1
        else Inr 18446744073709551616)\<rparr>"

text \<open>
  Two tokens whose owner lookups resolve to keys that differ only in letter case.
\<close>

definition mixed_case_client :: client where
  "mixed_case_client =
     \<lparr>totalSupply = Inr 2,
      ownerOf = (\<lambda>tokenId k. if tokenId = 1 then Inr ''0xAbC'' else Inr ''0xabc''),
      getBalance = (\<lambda>address k. Inr 1)\<rparr>"

text \<open>
  Three tokens of the owners \<open>A\<close>, \<open>B\<close> and \<open>C\<close>, with the balances 10, 0 and 5 wei.
\<close>

definition plain_client :: client where
  "plain_client =
     \<lparr>totalSupply = Inr 3,
      ownerOf = (\<lambda>tokenId k.
        if tokenId = 1 then Inr ''A'' else if tokenId = 2 then Inr ''B'' else Inr ''C''),
      getBalance = (\<lambda>address k.
        if address = Value ''A'' then Inr 10
        else if address = Value ''B'' then Inr 0
        else Inr 5)\<rparr>"

text \<open>
  The five tokens of \<open>scenario_client\<close>, but every balance lookup of \<open>B\<close> rejects
  with a timeout.
\<close>

definition failing_client :: client where
  "failing_client =
     \<lparr>totalSupply = Inr 5,
      ownerOf = (\<lambda>tokenId k.
        if tokenId = 1 \<or> tokenId = 2 then Inr ''A''
        else if tokenId = 3 then Inr ''B''
        else if tokenId = 4 then Inl (RpcError (Some nonexistent_token))
        else Inr ''C''),
      getBalance = (\<lambda>address k.
        if address = Value ''A'' then Inr 10
        else if address = Value ''B'' then Inl (RpcError (Some ''timeout''))
        else Inr 5)\<rparr>"

section \<open>Properties of withRetry\<close>

lemma withRetry_loop_skip:
  assumes "\<forall>j<d. fails_transiently (fn (i + j))" "i + d < retries"
  shows "withRetry_loop cfg fn retries i ds =
         withRetry_loop cfg fn retries (i + d) (ds @ map (\<lambda>j. RETRY_DELAY cfg * 2 ^ j) [i..<i + d])"
  using assms
proof (induction d arbitrary: i ds)
  case 0
  then show ?case by simp
next
  case (Suc d)
  from Suc.prems(1) have t0: "fails_transiently (fn i)" by (metis add.right_neutral zero_less_Suc)
  then obtain e where e: "fn i = Inl e" "reason e \<noteq> Some nonexistent_token"
    by (auto simp: fails_transiently_def split: sum.splits)
  have rest: "\<forall>j<d. fails_transiently (fn (Suc i + j))"
    using Suc.prems(1) by (metis Suc_less_eq add_Suc_shift)
  have lt: "Suc i + d < retries" using Suc.prems(2) by simp
  have step: "withRetry_loop cfg fn retries i ds =
      withRetry_loop cfg fn retries (Suc i) (ds @ [RETRY_DELAY cfg * 2 ^ i])"
    using e lt by (subst withRetry_loop.simps) auto
  have "[i..<i + Suc d] = i # [Suc i..<Suc i + d]"
    by (simp add: upt_rec)
  with step Suc.IH[OF rest lt] show ?case by simp
qed

lemma withRetry_first_settled:
  assumes "k < retries" "\<forall>i<k. fails_transiently (fn i)"
  shows "withRetry cfg fn retries = withRetry_loop cfg fn retries k (backoffs cfg k)"
  using withRetry_loop_skip[of k fn 0 retries cfg "[]"] assms
  by (simp add: withRetry_def backoffs_def)

text \<open>
  Claim C3. The contract of the retry wrapper. (1) An operation that fails transiently
  exactly \<open>k < retries\<close> times and then succeeds: its value is returned, after
  \<open>k + 1\<close> attempts and the \<open>k\<close> backoff delays. (2) An operation that reports the
  nonexistent-token reason at attempt \<open>k\<close>: \<open>null\<close> is returned at once, with no
  further attempt and no further delay (for \<open>k = 0\<close>: one attempt, no delay at all).
  (3) An operation that fails transiently on all of the \<open>retries > 0\<close> attempts: the call
  throws the error of the last attempt, after exactly \<open>retries\<close> attempts.
\<close>

theorem withRetry_contract:
  "(k < retries \<and> (\<forall>i<k. fails_transiently (fn i)) \<and> fn k = Inr v \<longrightarrow>
      withRetry cfg fn retries =
        \<lparr>outcome = Inr (Value v), calls = Suc k, sleeps = backoffs cfg k\<rparr>)
   \<and> (k < retries \<and> (\<forall>i<k. fails_transiently (fn i)) \<and> fn k = Inl e
        \<and> reason e = Some nonexistent_token \<longrightarrow>
      withRetry cfg fn retries =
        \<lparr>outcome = Inr Null, calls = Suc k, sleeps = backoffs cfg k\<rparr>)
   \<and> (0 < retries \<and> (\<forall>i<retries. fails_transiently (fn i)) \<longrightarrow>
      (\<exists>e'. fn (retries - 1) = Inl e' \<and>
        withRetry cfg fn retries =
          \<lparr>outcome = Inl e', calls = retries, sleeps = backoffs cfg (retries - 1)\<rparr>))"
proof (intro conjI impI)
  assume a: "k < retries \<and> (\<forall>i<k. fails_transiently (fn i)) \<and> fn k = Inr v"
  then have "withRetry cfg fn retries = withRetry_loop cfg fn retries k (backoffs cfg k)"
    by (simp add: withRetry_first_settled)
  also have "\<dots> = \<lparr>outcome = Inr (Value v), calls = Suc k, sleeps = backoffs cfg k\<rparr>"
    using a by (subst withRetry_loop.simps) simp
  finally show "withRetry cfg fn retries =
        \<lparr>outcome = Inr (Value v), calls = Suc k, sleeps = backoffs cfg k\<rparr>" .
next
  assume a: "k < retries \<and> (\<forall>i<k. fails_transiently (fn i)) \<and> fn k = Inl e
        \<and> reason e = Some nonexistent_token"
  then have "withRetry cfg fn retries = withRetry_loop cfg fn retries k (backoffs cfg k)"
    by (simp add: withRetry_first_settled)
  also have "\<dots> = \<lparr>outcome = Inr Null, calls = Suc k, sleeps = backoffs cfg k\<rparr>"
    using a by (subst withRetry_loop.simps) simp
  finally show "withRetry cfg fn retries =
        \<lparr>outcome = Inr Null, calls = Suc k, sleeps = backoffs cfg k\<rparr>" .
next
  assume a: "0 < retries \<and> (\<forall>i<retries. fails_transiently (fn i))"
  then have "fails_transiently (fn (retries - 1))" by simp
  then obtain e' where e': "fn (retries - 1) = Inl e'" "reason e' \<noteq> Some nonexistent_token"
    by (auto simp: fails_transiently_def split: sum.splits)
  from a have "withRetry cfg fn retries =
      withRetry_loop cfg fn retries (retries - 1) (backoffs cfg (retries - 1))"
    by (simp add: withRetry_first_settled)
  also have "\<dots> = \<lparr>outcome = Inl e', calls = retries, sleeps = backoffs cfg (retries - 1)\<rparr>"
    using a e' by (subst withRetry_loop.simps) simp
  finally show "\<exists>e'. fn (retries - 1) = Inl e' \<and>
        withRetry cfg fn retries =
          \<lparr>outcome = Inl e', calls = retries, sleeps = backoffs cfg (retries - 1)\<rparr>"
    using e' by blast
qed

theorem withRetry_contract_witness:
  "withRetry CONFIG (\<lambda>k. if k < 2 then Inl (RpcError None) else Inr (7::nat)) 3 =
     \<lparr>outcome = Inr (Value 7), calls = 3, sleeps = [1000, 2000]\<rparr>
   \<and> withRetry CONFIG (\<lambda>k. Inl (RpcError (Some nonexistent_token)) :: nat promise) 3 =
     \<lparr>outcome = Inr Null, calls = 1, sleeps = []\<rparr>
   \<and> withRetry CONFIG (\<lambda>k. Inl (RpcError (Some ''timeout'')) :: nat promise) 3 =
     \<lparr>outcome = Inl (RpcError (Some ''timeout'')), calls = 3, sleeps = [1000, 2000]\<rparr>"
proof -
  have n: "nonexistent_token \<noteq> ''timeout''" by (simp add: nonexistent_token_def)
  have u: "[0..<2] = [0, Suc 0]" by (simp add: upt_rec)
  show ?thesis
    using withRetry_contract[of 2 3 "\<lambda>k. if k < 2 then Inl (RpcError None) else Inr (7::nat)" 7 CONFIG]
      withRetry_contract[of 0 3 "\<lambda>k. Inl (RpcError (Some nonexistent_token)) :: nat promise" _ CONFIG
         "RpcError (Some nonexistent_token)"]
      withRetry_contract[of _ 3 "\<lambda>k. Inl (RpcError (Some ''timeout'')) :: nat promise" _ CONFIG] n u
    by (simp add: fails_transiently_def backoffs_def CONFIG_def)
qed

section \<open>Properties of chunk\<close>

lemma concat_slices: "concat (map (\<lambda>i. take b (drop (i * b) xs)) [0..<n]) = take (n * b) xs"
proof (induction n)
  case 0
  then show ?case by simp
next
  case (Suc n)
  have "take (n * b + b) xs = take (n * b) xs @ take b (drop (n * b) xs)"
    by (simp add: take_add)
  with Suc show ?case by (simp add: add.commute)
qed

lemma ceil_div_covers:
  fixes b :: nat
  assumes "0 < b"
  shows "len \<le> ((len + b - 1) div b) * b"
proof -
  have "(len + b - 1) = ((len + b - 1) div b) * b + (len + b - 1) mod b" by simp
  moreover have "(len + b - 1) mod b < b" using assms by simp
  ultimately show ?thesis using assms by linarith
qed


lemma chunk_positive:
  assumes "0 < b"
  shows "chunk xs b =
    (if 4294967295 < (length xs + b - 1) div b then Inl RangeError
     else Inr (map (\<lambda>i. take b (drop (i * b) xs)) [0..<(length xs + b - 1) div b]))"
  using assms by (simp add: chunk_def Array_from_def slice_def)

lemma chunk_concat:
  assumes "chunk xs b = Inr bs"
  shows "concat bs = xs"
proof (cases "b = 0")
  case True
  with assms show ?thesis by (auto simp: chunk_def split: if_splits)
next
  case False
  then have b: "0 < b" by simp
  from assms have bs: "bs = map (\<lambda>i. take b (drop (i * b) xs)) [0..<(length xs + b - 1) div b]"
    by (simp add: chunk_positive[OF b] split: if_splits)
  show ?thesis
    unfolding bs concat_slices using ceil_div_covers[OF b, of "length xs"] by simp
qed

lemma chunk_returns:
  assumes "0 < b" "length xs \<le> 4294967295"
  shows "\<exists>bs. chunk xs b = Inr bs"
proof -
  have "(length xs + b - 1) div b \<le> length xs"
  proof -
    have "(length xs + b - 1) div b * b \<le> length xs + b - 1" by simp
    show ?thesis
    proof (cases "length xs = 0")
      case True
      then show ?thesis using assms by simp
    next
      case False
      have "(length xs + b - 1) div b \<le> (length xs * b) div b"
      proof (rule div_le_mono)
        obtain l' b' where lb: "length xs = Suc l'" "b = Suc b'"
          using False assms(1) by (metis not0_implies_Suc less_numeral_extra(3))
        have "length xs + b \<le> length xs * b + 1"
          unfolding lb by simp
        then show "length xs + b - 1 \<le> length xs * b" by simp
      qed
      then show ?thesis using assms by simp
    qed
  qed
  then show ?thesis using assms by (simp add: chunk_positive)
qed


section \<open>Properties of Promise.all and Set\<close>

lemma rejections_empty_iff: "rejections ps = [] \<longleftrightarrow> ps = map Inr (fulfilments ps)"
  by (induction ps rule: rejections.induct) auto

lemma fulfilments_map_Inr: "fulfilments (map Inr vs) = vs"
  by (induction vs) auto

lemma Promise_all_Inr_iff: "Promise_all ps = Inr vs \<longleftrightarrow> ps = map Inr vs"
proof
  assume "Promise_all ps = Inr vs"
  then show "ps = map Inr vs"
    by (auto simp: Promise_all_def rejections_empty_iff split: if_splits)
next
  assume ps: "ps = map Inr vs"
  then have "rejections ps = []" by (simp add: rejections_empty_iff fulfilments_map_Inr)
  then show "Promise_all ps = Inr vs" by (simp add: Promise_all_def ps fulfilments_map_Inr)
qed

lemma rejections_set: "set (rejections ps) = {e. Inl e \<in> set ps}"
  by (induction ps rule: rejections.induct) auto

lemma Promise_all_Inl_iff: "isl (Promise_all ps) \<longleftrightarrow> (\<exists>p\<in>set ps. isl p)"
proof -
  have "rejections ps \<noteq> [] \<longleftrightarrow> (\<exists>p\<in>set ps. isl p)"
    by (induction ps rule: rejections.induct) auto
  then show ?thesis by (auto simp: Promise_all_def)
qed

lemma Promise_all_cases:
  obtains (fulfilled) vs where "ps = map Inr vs" "Promise_all ps = Inr vs"
  | (rejected) es where "Promise_all ps = Inl es" "\<exists>p\<in>set ps. isl p"
proof (cases "Promise_all ps")
  case (Inl es)
  then have "isl (Promise_all ps)" by simp
  then have "\<exists>p\<in>set ps. isl p" by (simp only: Promise_all_Inl_iff)
  with Inl show ?thesis by (rule rejected)
next
  case (Inr vs)
  then show ?thesis using fulfilled by (simp add: Promise_all_Inr_iff)
qed

lemma Set_add_distinct: "distinct s \<Longrightarrow> distinct (Set_add s v)"
  by (simp add: Set_add_def)

lemma Set_add_set: "set (Set_add s v) = insert v (set s)"
  by (auto simp: Set_add_def)

lemma fold_Set_add_distinct: "distinct s \<Longrightarrow> distinct (fold (\<lambda>v s. Set_add s v) vs s)"
  by (induction vs arbitrary: s) (simp_all add: Set_add_distinct)

lemma fold_Set_add_set: "set (fold (\<lambda>v s. Set_add s v) vs s) = set s \<union> set vs"
  by (induction vs arbitrary: s) (auto simp: Set_add_set)

section \<open>The owner loop\<close>

lemma fold_absorb_owner:
  "fold absorb_owner owners s =
     \<lparr>uniqueHolders =
        fold (\<lambda>owner hs. Set_add hs owner) (filter (\<lambda>owner. owner \<noteq> Null) owners) (uniqueHolders s),
      processedTokens = processedTokens s,
      skippedTokens = skippedTokens s + length (filter (\<lambda>owner. owner = Null) owners)\<rparr>"
  by (induction owners arbitrary: s) (simp_all add: absorb_owner_def)

lemma holders_after_append:
  "holders_after (os1 @ os2) s = holders_after os2 (holders_after os1 s)"
  by (simp add: holders_after_def)

lemma owner_batch_step:
  "length owners = n \<Longrightarrow>
   (fold absorb_owner owners s)\<lparr>processedTokens := processedTokens (fold absorb_owner owners s) + n\<rparr>
     = holders_after owners s"
  by (simp add: fold_absorb_owner holders_after_def)

lemma owner_batches_returns:
  "map (lookupOwner cfg c) (concat bs) = map Inr owners \<Longrightarrow>
   owner_batches cfg c bs s = Inr (holders_after owners s)"
proof (induction bs arbitrary: s owners)
  case Nil
  then show ?case by (simp add: holders_after_def)
next
  case (Cons b bs)
  from Cons.prems have "map (lookupOwner cfg c) b @ map (lookupOwner cfg c) (concat bs) = map Inr owners"
    by simp
  then obtain os1 os2 where os: "owners = os1 @ os2" "map (lookupOwner cfg c) b = map Inr os1"
    "map (lookupOwner cfg c) (concat bs) = map Inr os2"
    unfolding append_eq_map_conv by blast
  have "length (map (lookupOwner cfg c) b) = length (map Inr os1 :: string js_value promise list)"
    using os(2) by simp
  then have len: "length os1 = length b" by simp
  have "Promise_all (map (lookupOwner cfg c) b) = Inr os1" using os(2) by (simp add: Promise_all_Inr_iff)
  then show ?case
    using Cons.IH[OF os(3)] os(1) len by (simp add: owner_batch_step holders_after_append)
qed

lemma owner_batches_throws:
  "\<exists>tokenId\<in>set (concat bs). isl (lookupOwner cfg c tokenId) \<Longrightarrow> isl (owner_batches cfg c bs s)"
proof (induction bs arbitrary: s)
  case Nil
  then show ?case by simp
next
  case (Cons b bs)
  show ?case
  proof (cases rule: Promise_all_cases[of "map (lookupOwner cfg c) b"])
    case (fulfilled vs)
    have "\<not> isl (Promise_all (map (lookupOwner cfg c) b))" using fulfilled(2) by simp
    then have "\<forall>tokenId\<in>set b. \<not> isl (lookupOwner cfg c tokenId)"
      unfolding Promise_all_Inl_iff by simp
    with Cons.prems have "\<exists>tokenId\<in>set (concat bs). isl (lookupOwner cfg c tokenId)" by auto
    then show ?thesis using Cons.IH fulfilled(2) by simp
  next
    case (rejected es)
    then show ?thesis by simp
  qed
qed

lemma owner_batches_Inr_iff:
  "owner_batches cfg c bs s = Inr s' \<longleftrightarrow>
     (\<exists>owners. map (lookupOwner cfg c) (concat bs) = map Inr owners \<and> s' = holders_after owners s)"
proof (cases rule: Promise_all_cases[of "map (lookupOwner cfg c) (concat bs)"])
  case (fulfilled vs)
  have "owners = vs" if "map (lookupOwner cfg c) (concat bs) = map Inr owners" for owners
    using that fulfilled(1) by (simp add: inj_map_eq_map)
  then show ?thesis using owner_batches_returns[OF fulfilled(1), of s] fulfilled(1)
    by auto
next
  case (rejected es)
  then have "isl (owner_batches cfg c bs s)" using owner_batches_throws[of bs cfg c s] by auto
  moreover have "\<not> (\<exists>owners. map (lookupOwner cfg c) (concat bs) = map Inr owners)"
    using rejected(1) by (auto simp flip: Promise_all_Inr_iff)
  ultimately show ?thesis by auto
qed

section \<open>The balance loop\<close>

lemma forEach_absorb_balance_returns:
  "Undefined \<notin> set balances \<Longrightarrow>
   forEach absorb_balance balances s =
     Inr \<lparr>totalETH = totalETH s + sum_list (map contribution balances),
          processedHolders = processedHolders s,
          failedBalanceChecks =
            failedBalanceChecks s + length (filter (\<lambda>balance. balance = Null) balances)\<rparr>"
proof (induction balances arbitrary: s)
  case Nil
  then show ?case by simp
next
  case (Cons b bs)
  then show ?case
    by (cases b) (simp_all add: absorb_balance_def contribution_def)
qed

lemma forEach_absorb_balance_throws:
  "Undefined \<in> set balances \<Longrightarrow> forEach absorb_balance balances s = Inl TypeError"
proof (induction balances arbitrary: s)
  case Nil
  then show ?case by simp
next
  case (Cons b bs)
  then show ?case
    by (cases b) (auto simp: absorb_balance_def)
qed

lemma balances_after_append:
  "balances_after (bs1 @ bs2) s = balances_after bs2 (balances_after bs1 s)"
  by (simp add: balances_after_def)

lemma balance_batches_returns:
  "map (lookupBalance cfg c) (concat bs) = map Inr balances \<Longrightarrow> Undefined \<notin> set balances \<Longrightarrow>
   balance_batches cfg c bs s = Inr (balances_after balances s)"
proof (induction bs arbitrary: s balances)
  case Nil
  then show ?case by (simp add: balances_after_def)
next
  case (Cons b bs)
  from Cons.prems(1)
  have "map (lookupBalance cfg c) b @ map (lookupBalance cfg c) (concat bs) = map Inr balances"
    by simp
  then obtain bl1 bl2 where bl: "balances = bl1 @ bl2" "map (lookupBalance cfg c) b = map Inr bl1"
    "map (lookupBalance cfg c) (concat bs) = map Inr bl2"
    unfolding append_eq_map_conv by blast
  have "length (map (lookupBalance cfg c) b) = length (map Inr bl1 :: int js_value promise list)"
    using bl(2) by simp
  then have len: "length bl1 = length b" by simp
  have u: "Undefined \<notin> set bl1" "Undefined \<notin> set bl2" using Cons.prems(2) bl(1) by auto
  have p: "Promise_all (map (lookupBalance cfg c) b) = Inr bl1"
    using bl(2) by (simp add: Promise_all_Inr_iff)
  have step: "forEach absorb_balance bl1 s =
     Inr \<lparr>totalETH = totalETH s + sum_list (map contribution bl1),
          processedHolders = processedHolders s,
          failedBalanceChecks =
            failedBalanceChecks s + length (filter (\<lambda>balance. balance = Null) bl1)\<rparr>"
    by (rule forEach_absorb_balance_returns[OF u(1)])
  show ?case
    using Cons.IH[OF bl(3) u(2)] bl(1) len p step
    by (simp add: balances_after_append) (simp add: balances_after_def)
qed

lemma balance_batches_throws:
  "\<exists>a\<in>set (concat bs). isl (lookupBalance cfg c a) \<or> lookupBalance cfg c a = Inr Undefined \<Longrightarrow>
   isl (balance_batches cfg c bs s)"
proof (induction bs arbitrary: s)
  case Nil
  then show ?case by simp
next
  case (Cons b bs)
  show ?case
  proof (cases rule: Promise_all_cases[of "map (lookupBalance cfg c) b"])
    case (fulfilled vs)
    show ?thesis
    proof (cases "Undefined \<in> set vs")
      case True
      then show ?thesis using fulfilled(2) by (simp add: forEach_absorb_balance_throws)
    next
      case False
      have "\<not> isl (Promise_all (map (lookupBalance cfg c) b))" using fulfilled(2) by simp
      then have ok: "\<forall>a\<in>set b. \<not> isl (lookupBalance cfg c a)"
        unfolding Promise_all_Inl_iff by simp
      have "lookupBalance cfg c a \<noteq> Inr Undefined" if "a \<in> set b" for a
      proof
        assume "lookupBalance cfg c a = Inr Undefined"
        then have "Inr Undefined \<in> set (map (lookupBalance cfg c) b)" using that by force
        then show False using fulfilled(1) False by auto
      qed
      with ok Cons.prems
      have "\<exists>a\<in>set (concat bs). isl (lookupBalance cfg c a) \<or> lookupBalance cfg c a = Inr Undefined"
        by auto
      then show ?thesis
        using Cons.IH fulfilled(2) forEach_absorb_balance_returns[OF False, of s] by simp
    qed
  next
    case (rejected es)
    then show ?thesis by simp
  qed
qed

lemma balance_batches_Inr_iff:
  "balance_batches cfg c bs s = Inr s' \<longleftrightarrow>
     (\<exists>balances. map (lookupBalance cfg c) (concat bs) = map Inr balances
        \<and> Undefined \<notin> set balances \<and> s' = balances_after balances s)"
proof (cases "\<exists>a\<in>set (concat bs). isl (lookupBalance cfg c a) \<or> lookupBalance cfg c a = Inr Undefined")
  case True
  then have "isl (balance_batches cfg c bs s)" by (rule balance_batches_throws)
  moreover have "\<not> (\<exists>balances. map (lookupBalance cfg c) (concat bs) = map Inr balances
        \<and> Undefined \<notin> set balances)"
  proof
    assume "\<exists>balances. map (lookupBalance cfg c) (concat bs) = map Inr balances
        \<and> Undefined \<notin> set balances"
    then obtain balances where b: "map (lookupBalance cfg c) (concat bs) = map Inr balances"
      "Undefined \<notin> set balances" by blast
    from True obtain a where a: "a \<in> set (concat bs)"
      "isl (lookupBalance cfg c a) \<or> lookupBalance cfg c a = Inr Undefined" by blast
    from a(1) have "lookupBalance cfg c a \<in> set (map (lookupBalance cfg c) (concat bs))" by simp
    then have "lookupBalance cfg c a \<in> Inr ` set balances" unfolding b(1) by simp
    with a(2) b(2) show False by auto
  qed
  ultimately show ?thesis by auto
next
  case False
  define balances where "balances = map (projr \<circ> lookupBalance cfg c) (concat bs)"
  have m: "map (lookupBalance cfg c) (concat bs) = map Inr balances"
    unfolding balances_def using False by (auto simp: isl_def)
  have u: "Undefined \<notin> set balances"
  proof
    assume "Undefined \<in> set balances"
    then have "Undefined \<in> (projr \<circ> lookupBalance cfg c) ` set (concat bs)"
      unfolding balances_def by simp
    then obtain a where "a \<in> set (concat bs)" "projr (lookupBalance cfg c a) = Undefined"
      by (metis comp_apply imageE)
    moreover from this False have "\<not> isl (lookupBalance cfg c a)"
      "lookupBalance cfg c a \<noteq> Inr Undefined" by blast+
    ultimately show False by (cases "lookupBalance cfg c a") simp_all
  qed
  have "bl = balances" if "map (lookupBalance cfg c) (concat bs) = map Inr bl" for bl
    using that m by (simp add: inj_map_eq_map)
  then show ?thesis using balance_batches_returns[OF m u, of s] m u by auto
qed

section \<open>getUniqueHolders as a function of the lookups\<close>


lemma tokenIds_upt: "map (\<lambda>i. i + 1) [0..<N] = [1..<Suc N]"
  using map_Suc_upt[of 0 N] by simp

lemma Array_from_tokenIds:
  "N \<le> 4294967295 \<Longrightarrow> Array_from N (\<lambda>i. i + 1) = Inr [1..<Suc N]"
  unfolding Array_from_def tokenIds_upt by (simp del: upt_Suc)

lemma getUniqueHolders_run_Inr_D:
  assumes "getUniqueHolders_run cfg c = Inr s'"
  shows "\<exists>N owners. totalSupply c = Inr N \<and> N \<le> 4294967295
           \<and> map (lookupOwner cfg c) [1..<Suc N] = map Inr owners
           \<and> s' = holders_after owners holders_init"
proof -
  from assms obtain N where N: "totalSupply c = Inr N"
    by (cases "totalSupply c") (simp_all add: getUniqueHolders_run_def)
  from assms N have le: "N \<le> 4294967295"
    by (simp add: getUniqueHolders_run_def Array_from_def split: if_splits)
  then have ids: "Array_from N (\<lambda>i. i + 1) = Inr [1..<Suc N]"
    by (rule Array_from_tokenIds)
  from assms N ids obtain bs where bs: "chunk [1..<Suc N] (OWNER_BATCH_SIZE cfg) = Inr bs"
    by (cases "chunk [1..<Suc N] (OWNER_BATCH_SIZE cfg)") (simp_all add: getUniqueHolders_run_def)
  from assms N ids bs have "owner_batches cfg c bs holders_init = Inr s'"
    by (simp add: getUniqueHolders_run_def holders_init_def)
  then obtain owners where "map (lookupOwner cfg c) (concat bs) = map Inr owners"
     "s' = holders_after owners holders_init"
    unfolding owner_batches_Inr_iff by blast
  with chunk_concat[OF bs] N le show ?thesis by auto
qed

lemma getUniqueHolders_run_Inr_I:
  assumes "totalSupply c = Inr N" "N \<le> 4294967295" "0 < OWNER_BATCH_SIZE cfg"
    "map (lookupOwner cfg c) [1..<Suc N] = map Inr owners"
  shows "getUniqueHolders_run cfg c = Inr (holders_after owners holders_init)"
proof -
  have ids: "Array_from N (\<lambda>i. i + 1) = Inr [1..<Suc N]"
    using assms(2) by (rule Array_from_tokenIds)
  have "length [1..<Suc N] \<le> 4294967295" using assms(2) by simp
  from chunk_returns[OF assms(3) this]
  obtain bs where bs: "chunk [1..<Suc N] (OWNER_BATCH_SIZE cfg) = Inr bs" by blast
  have "owner_batches cfg c bs holders_init = Inr (holders_after owners holders_init)"
    using assms(4) chunk_concat[OF bs] by (simp add: owner_batches_returns)
  then show ?thesis using assms(1) ids bs
    by (simp add: getUniqueHolders_run_def holders_init_def)
qed

lemma map_eq_map_Inr_set:
  assumes "map f xs = map Inr ys"
  shows "set ys = {y. \<exists>x\<in>set xs. f x = Inr y}"
proof -
  have "f ` set xs = Inr ` set ys" using assms by (metis list.set_map)
  then show ?thesis by (auto simp: image_iff set_eq_iff) (metis sum.inject(2))+
qed

lemma map_eq_map_Inr_I:
  assumes "\<forall>x\<in>set xs. \<not> isl (f x)"
  shows "map f xs = map Inr (map (projr \<circ> f) xs)"
  using assms by (induction xs) (auto simp: isl_def)

lemma uniqueHolders_after:
  "uniqueHolders (holders_after owners holders_init) =
     fold (\<lambda>owner hs. Set_add hs owner) (filter (\<lambda>owner. owner \<noteq> Null) owners) []"
  by (simp add: holders_after_def holders_init_def)


text \<open>
  Claim C4. When the client reports the collection size \<open>N\<close> and \<open>getUniqueHolders\<close>
  returns, the work items are exactly the identifiers \<open>1, ..., N\<close>, all \<open>N\<close> of them
  were processed, and the returned holders have no duplicates and are exactly the results
  of the owner lookups (under \<open>withRetry\<close>) that are not \<open>null\<close>. It does return
  whenever \<open>N\<close> is a valid array length, the batch size is positive and no owner lookup
  throws.
\<close>

theorem getUniqueHolders_exact:
  "(totalSupply c = Inr N \<and> getUniqueHolders_run cfg c = Inr s \<longrightarrow>
      Array_from N (\<lambda>i. i + 1) = Inr [1..<Suc N]
      \<and> processedTokens s = N
      \<and> distinct (uniqueHolders s)
      \<and> set (uniqueHolders s) =
          {owner. owner \<noteq> Null \<and> (\<exists>tokenId\<in>{1..N}. lookupOwner cfg c tokenId = Inr owner)}
      \<and> getUniqueHolders cfg c = Inr (uniqueHolders s))
   \<and> (totalSupply c = Inr N \<and> N \<le> 4294967295 \<and> 0 < OWNER_BATCH_SIZE cfg
        \<and> (\<forall>tokenId\<in>{1..N}. \<not> isl (lookupOwner cfg c tokenId)) \<longrightarrow>
      (\<exists>s. getUniqueHolders_run cfg c = Inr s))"
proof (intro conjI impI)
  assume a: "totalSupply c = Inr N \<and> getUniqueHolders_run cfg c = Inr s"
  then obtain owners where o: "N \<le> 4294967295"
    "map (lookupOwner cfg c) [1..<Suc N] = map Inr owners" "s = holders_after owners holders_init"
    using getUniqueHolders_run_Inr_D[of cfg c s] by auto
  show "Array_from N (\<lambda>i. i + 1) = Inr [1..<Suc N]"
    using o(1) by (rule Array_from_tokenIds)
  have "length (map (lookupOwner cfg c) [1..<Suc N]) = length (map Inr owners :: string js_value promise list)"
    using o(2) by simp
  then have "length owners = N" by (simp del: upt_Suc)
  then show "processedTokens s = N" by (simp add: o(3) holders_after_def holders_init_def)
  show "distinct (uniqueHolders s)"
    unfolding o(3) uniqueHolders_after by (rule fold_Set_add_distinct) simp
  have "set (uniqueHolders s) = {owner \<in> set owners. owner \<noteq> Null}"
    unfolding o(3) uniqueHolders_after by (auto simp: fold_Set_add_set)
  also have "set owners = {y. \<exists>x\<in>set [1..<Suc N]. lookupOwner cfg c x = Inr y}"
    by (rule map_eq_map_Inr_set[OF o(2)])
  also have "set [1..<Suc N] = {1..N}" by auto
  finally show "set (uniqueHolders s) =
      {owner. owner \<noteq> Null \<and> (\<exists>tokenId\<in>{1..N}. lookupOwner cfg c tokenId = Inr owner)}"
    by auto
  show "getUniqueHolders cfg c = Inr (uniqueHolders s)"
    using a by (simp add: getUniqueHolders_def)
next
  assume a: "totalSupply c = Inr N \<and> N \<le> 4294967295 \<and> 0 < OWNER_BATCH_SIZE cfg
        \<and> (\<forall>tokenId\<in>{1..N}. \<not> isl (lookupOwner cfg c tokenId))"
  have "set [1..<Suc N] = {1..N}" by auto
  with a have "\<forall>x\<in>set [1..<Suc N]. \<not> isl (lookupOwner cfg c x)" by simp
  from map_eq_map_Inr_I[OF this] a
  show "\<exists>s. getUniqueHolders_run cfg c = Inr s"
    using getUniqueHolders_run_Inr_I[of c N cfg] by blast
qed

section \<open>The example run\<close>

lemmas lookup_evaluation =
  lookupOwner_def lookupBalance_def withRetry_def withRetry_loop.simps nonexistent_token_def
  CONFIG_def

lemma scenario_owners:
  "map (lookupOwner CONFIG scenario_client) [1..<Suc 5] =
     map Inr [Value ''A'', Value ''A'', Value ''B'', Null, Value ''C'']"
  by (simp add: lookup_evaluation scenario_client_def upt_rec)

lemma scenario_holders:
  "getUniqueHolders_run CONFIG scenario_client =
     Inr \<lparr>uniqueHolders = [Value ''A'', Value ''B'', Value ''C''], processedTokens = 5,
          skippedTokens = 1\<rparr>"
proof -
  have "getUniqueHolders_run CONFIG scenario_client =
      Inr (holders_after [Value ''A'', Value ''A'', Value ''B'', Null, Value ''C''] holders_init)"
    by (rule getUniqueHolders_run_Inr_I[OF _ _ _ scenario_owners])
       (simp_all add: scenario_client_def CONFIG_def)
  then show ?thesis by (simp add: holders_after_def holders_init_def Set_add_def)
qed

theorem getUniqueHolders_exact_witness:
  "totalSupply scenario_client = Inr 5
   \<and> getUniqueHolders CONFIG scenario_client = Inr [Value ''A'', Value ''B'', Value ''C'']
   \<and> set [Value ''A'', Value ''B'', Value ''C''] =
       {owner. owner \<noteq> Null \<and> (\<exists>tokenId\<in>{1..5}. lookupOwner CONFIG scenario_client tokenId = Inr owner)}"
proof -
  have t: "totalSupply scenario_client = Inr 5" by (simp add: scenario_client_def)
  from getUniqueHolders_exact[of scenario_client 5 CONFIG
      "\<lparr>uniqueHolders = [Value ''A'', Value ''B'', Value ''C''], processedTokens = 5,
          skippedTokens = 1\<rparr>"] t scenario_holders
  show ?thesis by simp
qed

section \<open>The balance phase as a function of the lookups\<close>

lemma aggregateBalances_Inr_D:
  assumes "aggregateBalances cfg c owners = Inr s"
  shows "\<exists>balances. map (lookupBalance cfg c) owners = map Inr balances
           \<and> Undefined \<notin> set balances \<and> s = balances_after balances balance_init"
proof -
  from assms obtain bs where bs: "chunk owners (BALANCE_BATCH_SIZE cfg) = Inr bs"
    by (cases "chunk owners (BALANCE_BATCH_SIZE cfg)") (simp_all add: aggregateBalances_def)
  from assms bs have "balance_batches cfg c bs balance_init = Inr s"
    by (simp add: aggregateBalances_def balance_init_def)
  then show ?thesis
    unfolding balance_batches_Inr_iff chunk_concat[OF bs] .
qed

lemma aggregateBalances_Inr_I:
  assumes "0 < BALANCE_BATCH_SIZE cfg" "length owners \<le> 4294967295"
    "map (lookupBalance cfg c) owners = map Inr balances" "Undefined \<notin> set balances"
  shows "aggregateBalances cfg c owners = Inr (balances_after balances balance_init)"
proof -
  from chunk_returns[OF assms(1,2)]
  obtain bs where bs: "chunk owners (BALANCE_BATCH_SIZE cfg) = Inr bs" by blast
  have "balance_batches cfg c bs balance_init = Inr (balances_after balances balance_init)"
    using assms(3,4) chunk_concat[OF bs] by (simp add: balance_batches_returns)
  then show ?thesis using bs by (simp add: aggregateBalances_def balance_init_def)
qed

lemma settled_balances:
  "map f owners = map Inr balances \<Longrightarrow>
   sum_list (map contribution balances) = (\<Sum>owner\<leftarrow>owners. balance_of (f owner))
   \<and> length (filter (\<lambda>balance. balance = Null) balances)
       = length (filter (\<lambda>owner. f owner = Inr Null) owners)
   \<and> length balances = length owners"
proof (induction owners arbitrary: balances)
  case Nil
  then show ?case by simp
next
  case (Cons owner owners)
  then obtain b bs where b: "balances = b # bs" "f owner = Inr b" "map f owners = map Inr bs"
    by (cases balances) auto
  with Cons.IH[OF b(3)] show ?case by (simp add: balance_of_def)
qed

text \<open>
  The arithmetic of the balance phase. For every list of owners and every batch size:
  when the phase returns, \<open>totalETH\<close> is the exact integer sum of the balances the
  lookups resolved to (a lookup that resolved to \<open>null\<close> adds nothing and is counted
  in \<open>failedBalanceChecks\<close>), and every owner was processed. The total is an
  unbounded integer: nothing is rounded. The phase returns whenever the batch size is
  positive and every lookup resolves to a balance or to \<open>null\<close>. It says nothing of
  a list with a lookup that rejects: there the phase does not return (see the last
  section).
\<close>

theorem aggregateBalances_exact:
  "(aggregateBalances cfg c owners = Inr s \<longrightarrow>
      totalETH s = (\<Sum>owner\<leftarrow>owners. balance_of (lookupBalance cfg c owner))
      \<and> failedBalanceChecks s =
          length (filter (\<lambda>owner. lookupBalance cfg c owner = Inr Null) owners)
      \<and> processedHolders s = length owners)
   \<and> (0 < BALANCE_BATCH_SIZE cfg \<and> length owners \<le> 4294967295
        \<and> (\<forall>owner\<in>set owners. \<not> isl (lookupBalance cfg c owner)
              \<and> lookupBalance cfg c owner \<noteq> Inr Undefined) \<longrightarrow>
      (\<exists>s. aggregateBalances cfg c owners = Inr s))"
proof (intro conjI impI)
  assume a: "aggregateBalances cfg c owners = Inr s"
  from aggregateBalances_Inr_D[OF a]
  obtain balances where b: "map (lookupBalance cfg c) owners = map Inr balances"
    "s = balances_after balances balance_init" by blast
  note sb = settled_balances[OF b(1)]
  show "totalETH s = (\<Sum>owner\<leftarrow>owners. balance_of (lookupBalance cfg c owner))"
    using sb by (simp add: b(2) balances_after_def balance_init_def)
  show "failedBalanceChecks s =
          length (filter (\<lambda>owner. lookupBalance cfg c owner = Inr Null) owners)"
    using sb by (simp add: b(2) balances_after_def balance_init_def)
  show "processedHolders s = length owners"
    using sb by (simp add: b(2) balances_after_def balance_init_def)
next
  assume a: "0 < BALANCE_BATCH_SIZE cfg \<and> length owners \<le> 4294967295
        \<and> (\<forall>owner\<in>set owners. \<not> isl (lookupBalance cfg c owner)
              \<and> lookupBalance cfg c owner \<noteq> Inr Undefined)"
  then have ok: "\<forall>owner\<in>set owners. \<not> isl (lookupBalance cfg c owner)" by blast
  let ?balances = "map (projr \<circ> lookupBalance cfg c) owners"
  have m: "map (lookupBalance cfg c) owners = map Inr ?balances"
    by (rule map_eq_map_Inr_I[OF ok])
  have u: "Undefined \<notin> set ?balances"
  proof
    assume "Undefined \<in> set ?balances"
    then have "Undefined \<in> (projr \<circ> lookupBalance cfg c) ` set owners" by simp
    then obtain owner where o: "owner \<in> set owners" "projr (lookupBalance cfg c owner) = Undefined"
      by (metis comp_apply imageE)
    with a have "\<not> isl (lookupBalance cfg c owner)" "lookupBalance cfg c owner \<noteq> Inr Undefined"
      by blast+
    with o(2) show False by (cases "lookupBalance cfg c owner") simp_all
  qed
  from a have "0 < BALANCE_BATCH_SIZE cfg" "length owners \<le> 4294967295" by simp_all
  from aggregateBalances_Inr_I[OF this m u]
  show "\<exists>s. aggregateBalances cfg c owners = Inr s" by (rule exI)
qed

lemma large_balances:
  "map (lookupBalance (CONFIG\<lparr>BALANCE_BATCH_SIZE := 2\<rparr>) large_client)
       [Value ''A'', Value ''B'', Value ''C''] =
     map Inr [Value 9007199254740993, Value 1, Value 18446744073709551616]"
  by (simp add: lookup_evaluation large_client_def)

theorem aggregateBalances_exact_witness:
  "aggregateBalances (CONFIG\<lparr>BALANCE_BATCH_SIZE := 2\<rparr>) large_client
       [Value ''A'', Value ''B'', Value ''C''] =
     Inr \<lparr>totalETH = 18455751272964292610, processedHolders = 3, failedBalanceChecks = 0\<rparr>
   \<and> (\<Sum>owner\<leftarrow>[Value ''A'', Value ''B'', Value ''C''].
         balance_of (lookupBalance (CONFIG\<lparr>BALANCE_BATCH_SIZE := 2\<rparr>) large_client owner))
       = 18455751272964292610"
proof -
  have "aggregateBalances (CONFIG\<lparr>BALANCE_BATCH_SIZE := 2\<rparr>) large_client
       [Value ''A'', Value ''B'', Value ''C''] =
     Inr (balances_after [Value 9007199254740993, Value 1, Value 18446744073709551616] balance_init)"
    by (rule aggregateBalances_Inr_I[OF _ _ large_balances]) (simp_all add: CONFIG_def)
  then have run: "aggregateBalances (CONFIG\<lparr>BALANCE_BATCH_SIZE := 2\<rparr>) large_client
       [Value ''A'', Value ''B'', Value ''C''] =
     Inr \<lparr>totalETH = 18455751272964292610, processedHolders = 3, failedBalanceChecks = 0\<rparr>"
    by (simp add: balances_after_def balance_init_def contribution_def)
  from aggregateBalances_exact[of "CONFIG\<lparr>BALANCE_BATCH_SIZE := 2\<rparr>" large_client
      "[Value ''A'', Value ''B'', Value ''C'']"
      "\<lparr>totalETH = 18455751272964292610, processedHolders = 3, failedBalanceChecks = 0\<rparr>"] run
  show ?thesis by simp
qed

section \<open>Batch sizes do not change what a run returns\<close>






lemma result_of_None_iff: "result_of r = None \<longleftrightarrow> isl r"
  by (cases r) (simp_all add: result_of_def)







lemma scenario_balances:
  "map (lookupBalance CONFIG scenario_client) [Value ''A'', Value ''B'', Value ''C''] =
     map Inr [Value 10, Value 0, Value 5]"
  by (simp add: lookup_evaluation scenario_client_def)

lemma scenario_run:
  "calculateTotalETHForHolders_run CONFIG scenario_client epochTime =
     Inr ([Value ''A'', Value ''B'', Value ''C''],
          \<lparr>totalETH = 15, processedHolders = 3, failedBalanceChecks = 0\<rparr>)"
proof -
  have h: "getUniqueHolders CONFIG scenario_client = Inr [Value ''A'', Value ''B'', Value ''C'']"
    by (simp add: getUniqueHolders_def scenario_holders)
  have "aggregateBalances CONFIG scenario_client [Value ''A'', Value ''B'', Value ''C''] =
      Inr (balances_after [Value 10, Value 0, Value 5] balance_init)"
    by (rule aggregateBalances_Inr_I[OF _ _ scenario_balances]) (simp_all add: CONFIG_def)
  then show ?thesis using h
    by (simp add: calculateTotalETHForHolders_run_def balances_after_def balance_init_def
        contribution_def)
qed

lemma formatEther_15: "formatEther 15 = ''0.000000000000000015''"
proof -
  have m: "(15::nat) mod 10 ^ 18 = 15" and d: "(15::nat) div 10 ^ 18 = 0" by simp_all
  have f: "decimal 15 = ''15''" and w: "decimal 0 = ''0''" by (simp_all add: decimal.simps)
  have r: "replicate 16 (CHR ''0'') = ''0000000000000000''" by (simp add: eval_nat_numeral)
  show ?thesis by (simp add: formatEther_def trim_zeros_def Let_def m d f w r)
qed

lemma scenario_formatted:
  "calculateTotalETHForHolders CONFIG scenario_client epochTime = Inr ''0.000000000000000015''"
  by (simp add: calculateTotalETHForHolders_def scenario_run formatEther_15)


section \<open>The epoch timestamp\<close>

text \<open>
  Claim C8. The epoch timestamp is never used: two calls that differ only in
  \<open>epochTime\<close> end with the same holders, total and counters, and return the same
  string (or throw alike).
\<close>

theorem epochTime_unused:
  "calculateTotalETHForHolders_run cfg c epochTime = calculateTotalETHForHolders_run cfg c epochTime'
   \<and> calculateTotalETHForHolders cfg c epochTime = calculateTotalETHForHolders cfg c epochTime'"
  by (simp add: calculateTotalETHForHolders_run_def calculateTotalETHForHolders_def)

section \<open>A retry budget of zero\<close>

lemma withRetry_zero: "withRetry cfg fn 0 = \<lparr>outcome = Inr Undefined, calls = 0, sleeps = []\<rparr>"
  by (simp add: withRetry_def withRetry_loop.simps)

lemma fold_Set_add_replicate:
  "fold (\<lambda>owner hs. Set_add hs owner) (replicate n v) [v] = [v]"
  by (induction n) (simp_all add: Set_add_def del: fold_replicate)

lemma holders_after_replicate_Undefined:
  "holders_after (replicate (Suc n) Undefined) holders_init =
     \<lparr>uniqueHolders = [Undefined], processedTokens = Suc n, skippedTokens = 0\<rparr>"
proof -
  have "fold (\<lambda>owner hs. Set_add hs owner) (replicate (Suc n) Undefined) [] =
      fold (\<lambda>owner hs. Set_add hs owner) (replicate n Undefined) [Undefined]"
    by (simp add: Set_add_def del: fold_replicate)
  then show ?thesis
    by (simp add: holders_after_def holders_init_def fold_Set_add_replicate del: fold_replicate replicate_Suc)
qed

lemma chunk_singleton: "0 < b \<Longrightarrow> chunk [x] b = Inr [[x]]"
proof -
  assume b: "0 < b"
  then have "(length [x] + b - 1) div b = 1" by simp
  moreover obtain b' where "b = Suc b'" using b by (cases b) simp_all
  ultimately show ?thesis by (simp add: chunk_def Array_from_def slice_def)
qed

text \<open>
  Claim C10. With a retry budget of zero, \<open>withRetry\<close> never invokes the operation
  and resolves to \<open>undefined\<close>: not a value of the operation, not \<open>null\<close>, not
  an error. Downstream, with \<open>RETRY_ATTEMPTS = 0\<close> and a non-empty collection,
  \<open>undefined\<close> is not \<open>null\<close>, so it is not counted as skipped but added to the
  set of holders, which ends as the single entry \<open>undefined\<close>; the balance loop then
  tries \<open>BigInt(undefined)\<close> to add it to the total, which throws a \<open>TypeError\<close>.
\<close>

theorem zero_retries_undefined:
  "withRetry cfg fn 0 = \<lparr>outcome = Inr Undefined, calls = 0, sleeps = []\<rparr>
   \<and> (RETRY_ATTEMPTS cfg = 0 \<and> totalSupply c = Inr N \<and> 0 < N \<and> N \<le> 4294967295
        \<and> 0 < OWNER_BATCH_SIZE cfg \<longrightarrow>
      getUniqueHolders_run cfg c =
        Inr \<lparr>uniqueHolders = [Undefined], processedTokens = N, skippedTokens = 0\<rparr>)
   \<and> (RETRY_ATTEMPTS cfg = 0 \<and> totalSupply c = Inr N \<and> 0 < N \<and> N \<le> 4294967295
        \<and> 0 < OWNER_BATCH_SIZE cfg \<and> 0 < BALANCE_BATCH_SIZE cfg \<longrightarrow>
      calculateTotalETHForHolders cfg c epochTime = Inl [TypeError])"
proof (intro conjI impI)
  show "withRetry cfg fn 0 = \<lparr>outcome = Inr Undefined, calls = 0, sleeps = []\<rparr>"
    by (rule withRetry_zero)
next
  assume a: "RETRY_ATTEMPTS cfg = 0 \<and> totalSupply c = Inr N \<and> 0 < N \<and> N \<le> 4294967295
        \<and> 0 < OWNER_BATCH_SIZE cfg"
  show "getUniqueHolders_run cfg c =
        Inr \<lparr>uniqueHolders = [Undefined], processedTokens = N, skippedTokens = 0\<rparr>"
  proof -
    have "lookupOwner cfg c = (\<lambda>tokenId. Inr Undefined)"
      using a by (intro ext) (simp add: lookupOwner_def withRetry_zero)
    then have m: "map (lookupOwner cfg c) [1..<Suc N] = map Inr (replicate N Undefined)"
      by (simp add: map_replicate_const del: upt_Suc)
    from a obtain n where n: "N = Suc n" by (cases N) simp_all
    have "getUniqueHolders_run cfg c = Inr (holders_after (replicate N Undefined) holders_init)"
      using a by (intro getUniqueHolders_run_Inr_I[OF _ _ _ m]) simp_all
    then show ?thesis
      by (simp only: n holders_after_replicate_Undefined)
  qed
next
  assume a: "RETRY_ATTEMPTS cfg = 0 \<and> totalSupply c = Inr N \<and> 0 < N \<and> N \<le> 4294967295
        \<and> 0 < OWNER_BATCH_SIZE cfg \<and> 0 < BALANCE_BATCH_SIZE cfg"
  have "lookupOwner cfg c = (\<lambda>tokenId. Inr Undefined)"
    using a by (intro ext) (simp add: lookupOwner_def withRetry_zero)
  then have m: "map (lookupOwner cfg c) [1..<Suc N] = map Inr (replicate N Undefined)"
    by (simp add: map_replicate_const del: upt_Suc)
  from a obtain n where n: "N = Suc n" by (cases N) simp_all
  have "getUniqueHolders_run cfg c = Inr (holders_after (replicate N Undefined) holders_init)"
    using a by (intro getUniqueHolders_run_Inr_I[OF _ _ _ m]) simp_all
  then have "getUniqueHolders_run cfg c =
      Inr \<lparr>uniqueHolders = [Undefined], processedTokens = N, skippedTokens = 0\<rparr>"
    by (simp only: n holders_after_replicate_Undefined)
  then have h: "getUniqueHolders cfg c = Inr [Undefined]"
    by (simp add: getUniqueHolders_def)
  have l: "lookupBalance cfg c Undefined = Inr Undefined"
    using a by (simp add: lookupBalance_def withRetry_zero)
  have "aggregateBalances cfg c [Undefined] = Inl [TypeError]"
    using a by (simp add: aggregateBalances_def chunk_singleton l Promise_all_def absorb_balance_def)
  then show "calculateTotalETHForHolders cfg c epochTime = Inl [TypeError]"
    using h by (simp add: calculateTotalETHForHolders_def calculateTotalETHForHolders_run_def)
qed

theorem zero_retries_undefined_witness:
  "withRetry (CONFIG\<lparr>RETRY_ATTEMPTS := 0\<rparr>) (ownerOf scenario_client 1) 0 =
     \<lparr>outcome = Inr Undefined, calls = 0, sleeps = []\<rparr>
   \<and> getUniqueHolders_run (CONFIG\<lparr>RETRY_ATTEMPTS := 0\<rparr>) scenario_client =
       Inr \<lparr>uniqueHolders = [Undefined], processedTokens = 5, skippedTokens = 0\<rparr>
   \<and> calculateTotalETHForHolders (CONFIG\<lparr>RETRY_ATTEMPTS := 0\<rparr>) scenario_client 1672531200 =
       Inl [TypeError]"
proof -
  have p: "RETRY_ATTEMPTS (CONFIG\<lparr>RETRY_ATTEMPTS := 0\<rparr>) = 0 \<and> totalSupply scenario_client = Inr 5
      \<and> 0 < (5::nat) \<and> (5::nat) \<le> 4294967295
      \<and> 0 < OWNER_BATCH_SIZE (CONFIG\<lparr>RETRY_ATTEMPTS := 0\<rparr>)
      \<and> 0 < BALANCE_BATCH_SIZE (CONFIG\<lparr>RETRY_ATTEMPTS := 0\<rparr>)"
    by (simp add: CONFIG_def scenario_client_def)
  from zero_retries_undefined[of "CONFIG\<lparr>RETRY_ATTEMPTS := 0\<rparr>" "ownerOf scenario_client 1"
      scenario_client 5 1672531200] p
  show ?thesis by simp
qed

section \<open>The identity of owner keys\<close>

text \<open>
  Claim C7, as stated, fails: two owner lookups that resolve to keys differing only in
  letter case give two entries of the set, since nothing in the code normalises case.
\<close>

theorem case_variants_counterexample:
  "getUniqueHolders CONFIG mixed_case_client = Inr [Value ''0xAbC'', Value ''0xabc'']"
proof -
  have m: "map (lookupOwner CONFIG mixed_case_client) [1..<Suc 2] =
      map Inr [Value ''0xAbC'', Value ''0xabc'']"
    by (simp add: lookup_evaluation mixed_case_client_def upt_rec)
  have "getUniqueHolders_run CONFIG mixed_case_client =
      Inr (holders_after [Value ''0xAbC'', Value ''0xabc''] holders_init)"
    by (rule getUniqueHolders_run_Inr_I[OF _ _ _ m]) (simp_all add: mixed_case_client_def CONFIG_def)
  then show ?thesis
    by (simp add: getUniqueHolders_def holders_after_def holders_init_def Set_add_def)
qed

text \<open>
  Claim C7, amended. The set of holders has no duplicates after every insertion, where
  keys are identified by exact (case-sensitive) string equality: absorbing an owner keeps
  the entries distinct, adds exactly that owner unless it is \<open>null\<close>, and grows the
  set by one entry exactly when the owner is not \<open>null\<close> and not yet an entry; so
  the entries are distinct after any number of batches of the loop.
\<close>

theorem uniqueHolders_exact_identity:
  "distinct (uniqueHolders s) \<longrightarrow>
     distinct (uniqueHolders (absorb_owner owner s))
     \<and> set (uniqueHolders (absorb_owner owner s)) =
         (if owner = Null then set (uniqueHolders s) else insert owner (set (uniqueHolders s)))
     \<and> length (uniqueHolders (absorb_owner owner s)) =
         (if owner = Null \<or> owner \<in> set (uniqueHolders s) then length (uniqueHolders s)
          else Suc (length (uniqueHolders s)))
     \<and> (owner_batches cfg c batches s = Inr s' \<longrightarrow> distinct (uniqueHolders s'))"
proof (intro impI conjI)
  assume d: "distinct (uniqueHolders s)"
  show "distinct (uniqueHolders (absorb_owner owner s))"
    using d by (simp add: absorb_owner_def Set_add_def)
  show "set (uniqueHolders (absorb_owner owner s)) =
         (if owner = Null then set (uniqueHolders s) else insert owner (set (uniqueHolders s)))"
    by (auto simp: absorb_owner_def Set_add_def)
  show "length (uniqueHolders (absorb_owner owner s)) =
         (if owner = Null \<or> owner \<in> set (uniqueHolders s) then length (uniqueHolders s)
          else Suc (length (uniqueHolders s)))"
    by (simp add: absorb_owner_def Set_add_def)
  assume "owner_batches cfg c batches s = Inr s'"
  then obtain owners where "s' = holders_after owners s"
    unfolding owner_batches_Inr_iff by blast
  then show "distinct (uniqueHolders s')"
    using d by (simp add: holders_after_def fold_Set_add_distinct)
qed

theorem uniqueHolders_exact_identity_witness:
  "distinct (uniqueHolders holders_init)
   \<and> owner_batches CONFIG mixed_case_client [[1, 2]] holders_init =
       Inr \<lparr>uniqueHolders = [Value ''0xAbC'', Value ''0xabc''], processedTokens = 2,
            skippedTokens = 0\<rparr>
   \<and> distinct [Value ''0xAbC'', Value ''0xabc'']
   \<and> length (uniqueHolders (absorb_owner (Value ''0xabc'')
        \<lparr>uniqueHolders = [Value ''0xAbC''], processedTokens = 1, skippedTokens = 0\<rparr>)) = 2
   \<and> length (uniqueHolders (absorb_owner (Value ''0xAbC'')
        \<lparr>uniqueHolders = [Value ''0xAbC''], processedTokens = 1, skippedTokens = 0\<rparr>)) = 1"
proof -
  have m: "map (lookupOwner CONFIG mixed_case_client) (concat [[1, 2]]) =
      map Inr [Value ''0xAbC'', Value ''0xabc'']"
    by (simp add: lookup_evaluation mixed_case_client_def)
  have b: "owner_batches CONFIG mixed_case_client [[1, 2]] holders_init =
       Inr \<lparr>uniqueHolders = [Value ''0xAbC'', Value ''0xabc''], processedTokens = 2,
            skippedTokens = 0\<rparr>"
    using owner_batches_returns[OF m, of holders_init]
    by (simp add: holders_after_def holders_init_def Set_add_def)
  have d: "distinct (uniqueHolders holders_init)" by (simp add: holders_init_def)
  from uniqueHolders_exact_identity[of holders_init _ CONFIG mixed_case_client "[[1, 2]]"
      "\<lparr>uniqueHolders = [Value ''0xAbC'', Value ''0xabc''], processedTokens = 2,
            skippedTokens = 0\<rparr>"]
    uniqueHolders_exact_identity[of
      "\<lparr>uniqueHolders = [Value ''0xAbC''], processedTokens = 1, skippedTokens = 0\<rparr>"
      "Value ''0xabc''"]
    uniqueHolders_exact_identity[of
      "\<lparr>uniqueHolders = [Value ''0xAbC''], processedTokens = 1, skippedTokens = 0\<rparr>"
      "Value ''0xAbC''"] b d
  show ?thesis by simp
qed

section \<open>What calculateTotalETHForHolders returns\<close>

lemma plain_holders:
  "getUniqueHolders_run CONFIG plain_client =
     Inr \<lparr>uniqueHolders = [Value ''A'', Value ''B'', Value ''C''], processedTokens = 3,
          skippedTokens = 0\<rparr>"
proof -
  have m: "map (lookupOwner CONFIG plain_client) [1..<Suc 3] =
      map Inr [Value ''A'', Value ''B'', Value ''C'']"
    by (simp add: lookup_evaluation plain_client_def upt_rec)
  have "getUniqueHolders_run CONFIG plain_client =
      Inr (holders_after [Value ''A'', Value ''B'', Value ''C''] holders_init)"
    by (rule getUniqueHolders_run_Inr_I[OF _ _ _ m]) (simp_all add: plain_client_def CONFIG_def)
  then show ?thesis by (simp add: holders_after_def holders_init_def Set_add_def)
qed

lemma plain_formatted:
  "calculateTotalETHForHolders CONFIG plain_client epochTime = Inr ''0.000000000000000015''"
proof -
  have m: "map (lookupBalance CONFIG plain_client) [Value ''A'', Value ''B'', Value ''C''] =
     map Inr [Value 10, Value 0, Value 5]"
    by (simp add: lookup_evaluation plain_client_def)
  have h: "getUniqueHolders CONFIG plain_client = Inr [Value ''A'', Value ''B'', Value ''C'']"
    by (simp add: getUniqueHolders_def plain_holders)
  have "aggregateBalances CONFIG plain_client [Value ''A'', Value ''B'', Value ''C''] =
      Inr (balances_after [Value 10, Value 0, Value 5] balance_init)"
    by (rule aggregateBalances_Inr_I[OF _ _ m]) (simp_all add: CONFIG_def)
  then show ?thesis using h
    by (simp add: calculateTotalETHForHolders_def calculateTotalETHForHolders_run_def
        balances_after_def balance_init_def contribution_def formatEther_15)
qed

text \<open>
  Claim C2, as stated, fails. In the example run the total is the integer \<open>15\<close>, and
  what is returned is the string \<open>0.000000000000000015\<close>; a second run, with other
  counters (3 tokens processed and none skipped, instead of 5 and 1), returns the very
  same value: the counters are no part of it.
\<close>

theorem returns_raw_total_and_stats_counterexample:
  "map_sum id (\<lambda>(holders, s). totalETH s)
       (calculateTotalETHForHolders_run CONFIG scenario_client 1672531200) = Inr 15
   \<and> calculateTotalETHForHolders CONFIG scenario_client 1672531200 = Inr ''0.000000000000000015''
   \<and> calculateTotalETHForHolders CONFIG plain_client 1672531200 = Inr ''0.000000000000000015''
   \<and> map_sum id skippedTokens (getUniqueHolders_run CONFIG scenario_client) = Inr 1
   \<and> map_sum id skippedTokens (getUniqueHolders_run CONFIG plain_client) = Inr 0
   \<and> map_sum id processedTokens (getUniqueHolders_run CONFIG scenario_client) = Inr 5
   \<and> map_sum id processedTokens (getUniqueHolders_run CONFIG plain_client) = Inr 3"
  by (simp add: scenario_run scenario_formatted plain_formatted scenario_holders plain_holders)

text \<open>
  Claim C2, amended. What \<open>calculateTotalETHForHolders\<close> returns is
  \<open>formatEther(totalETH)\<close> alone: the decimal ether string of the exact integer sum of
  the resolved balances of the unique holders. The counters are local variables (they
  are logged), and are not returned.
\<close>

theorem calculateTotalETHForHolders_returns_formatted:
  "calculateTotalETHForHolders cfg c epochTime = Inr formattedTotal \<longrightarrow>
     (\<exists>holders s.
        getUniqueHolders cfg c = Inr holders
        \<and> aggregateBalances cfg c holders = Inr s
        \<and> totalETH s = (\<Sum>owner\<leftarrow>holders. balance_of (lookupBalance cfg c owner))
        \<and> formattedTotal = formatEther (totalETH s))"
proof
  assume a: "calculateTotalETHForHolders cfg c epochTime = Inr formattedTotal"
  then obtain holders s where
    r: "calculateTotalETHForHolders_run cfg c epochTime = Inr (holders, s)"
    and f: "formattedTotal = formatEther (totalETH s)"
    by (cases "calculateTotalETHForHolders_run cfg c epochTime")
       (auto simp: calculateTotalETHForHolders_def)
  from r have h: "getUniqueHolders cfg c = Inr holders"
    and g: "aggregateBalances cfg c holders = Inr s"
    by (auto simp: calculateTotalETHForHolders_run_def split: sum.splits)
  from aggregateBalances_Inr_D[OF g]
  obtain balances where b: "map (lookupBalance cfg c) holders = map Inr balances"
    "s = balances_after balances balance_init" by blast
  have "totalETH s = (\<Sum>owner\<leftarrow>holders. balance_of (lookupBalance cfg c owner))"
    using settled_balances[OF b(1)] by (simp add: b(2) balances_after_def balance_init_def)
  with h g f show "\<exists>holders s.
        getUniqueHolders cfg c = Inr holders
        \<and> aggregateBalances cfg c holders = Inr s
        \<and> totalETH s = (\<Sum>owner\<leftarrow>holders. balance_of (lookupBalance cfg c owner))
        \<and> formattedTotal = formatEther (totalETH s)"
    by blast
qed

theorem calculateTotalETHForHolders_returns_formatted_witness:
  "calculateTotalETHForHolders CONFIG scenario_client 1672531200 = Inr ''0.000000000000000015''
   \<and> (\<exists>holders s.
        getUniqueHolders CONFIG scenario_client = Inr holders
        \<and> aggregateBalances CONFIG scenario_client holders = Inr s
        \<and> totalETH s = (\<Sum>owner\<leftarrow>holders. balance_of (lookupBalance CONFIG scenario_client owner))
        \<and> ''0.000000000000000015'' = formatEther (totalETH s))"
  using calculateTotalETHForHolders_returns_formatted[of CONFIG scenario_client 1672531200
      "''0.000000000000000015''"] scenario_formatted[of 1672531200]
  by blast

section \<open>A balance lookup that exhausts its retries\<close>

lemma failing_holders:
  "getUniqueHolders CONFIG failing_client = Inr [Value ''A'', Value ''B'', Value ''C'']"
proof -
  have m: "map (lookupOwner CONFIG failing_client) [1..<Suc 5] =
     map Inr [Value ''A'', Value ''A'', Value ''B'', Null, Value ''C'']"
    by (simp add: lookup_evaluation failing_client_def upt_rec)
  have "getUniqueHolders_run CONFIG failing_client =
      Inr (holders_after [Value ''A'', Value ''A'', Value ''B'', Null, Value ''C''] holders_init)"
    by (rule getUniqueHolders_run_Inr_I[OF _ _ _ m]) (simp_all add: failing_client_def CONFIG_def)
  then show ?thesis
    by (simp add: getUniqueHolders_def holders_after_def holders_init_def Set_add_def)
qed

text \<open>
  Claim C1 at a failing input: the balance lookup of owner \<open>B\<close> fails transiently on
  each of the three attempts. \<open>withRetry\<close> rethrows the last error, \<open>Promise.all\<close>
  rejects, and \<open>calculateTotalETHForHolders\<close> throws: no total is returned and
  nothing is counted in \<open>failedBalanceChecks\<close>.
\<close>

theorem retry_exhausted_aborts_run:
  "withRetry CONFIG (getBalance failing_client (Value ''B'')) (RETRY_ATTEMPTS CONFIG) =
     \<lparr>outcome = Inl (RpcError (Some ''timeout'')), calls = 3, sleeps = [1000, 2000]\<rparr>
   \<and> getUniqueHolders CONFIG failing_client = Inr [Value ''A'', Value ''B'', Value ''C'']
   \<and> calculateTotalETHForHolders CONFIG failing_client 1672531200 =
       Inl [RpcError (Some ''timeout'')]"
proof -
  have w: "withRetry CONFIG (getBalance failing_client (Value ''B'')) (RETRY_ATTEMPTS CONFIG) =
     \<lparr>outcome = Inl (RpcError (Some ''timeout'')), calls = 3, sleeps = [1000, 2000]\<rparr>"
    by (simp add: lookup_evaluation failing_client_def)
  have l: "lookupBalance CONFIG failing_client (Value ''A'') = Inr (Value 10)"
    "lookupBalance CONFIG failing_client (Value ''B'') = Inl (RpcError (Some ''timeout''))"
    "lookupBalance CONFIG failing_client (Value ''C'') = Inr (Value 5)"
    by (simp_all add: lookup_evaluation failing_client_def)
  have c: "chunk [Value ''A'', Value ''B'', Value ''C''] (BALANCE_BATCH_SIZE CONFIG) =
      Inr [[Value ''A'', Value ''B'', Value ''C'' :: string js_value]]"
    by (simp add: chunk_def Array_from_def slice_def CONFIG_def upt_rec)
  have "aggregateBalances CONFIG failing_client [Value ''A'', Value ''B'', Value ''C''] =
      Inl [RpcError (Some ''timeout'')]"
    by (simp add: aggregateBalances_def c l Promise_all_def)
  then show ?thesis using w failing_holders
    by (simp add: calculateTotalETHForHolders_def calculateTotalETHForHolders_run_def)
qed

section \<open>The total when a balance lookup has failed\<close>

text \<open>
  Claim C5 at a failing input: the owners \<open>A\<close>, \<open>B\<close> and \<open>C\<close> of
  \<open>failing_client\<close>, where the lookups of \<open>A\<close> and \<open>C\<close> resolve to 10 and 5 wei
  and the lookup of \<open>B\<close> fails on every attempt. The sum of the results over the owners
  whose lookup did not fail is 15, the total the claim states; the balance phase throws
  the error of \<open>B\<close> instead and leaves no total, with the batch size of the source
  (one batch) as with a batch size of 1 (where the 10 wei of \<open>A\<close> have already been
  added when the batch of \<open>B\<close> rejects).
\<close>

theorem failed_lookup_loses_total:
  "lookupBalance CONFIG failing_client (Value ''A'') = Inr (Value 10)
   \<and> lookupBalance CONFIG failing_client (Value ''B'') = Inl (RpcError (Some ''timeout''))
   \<and> lookupBalance CONFIG failing_client (Value ''C'') = Inr (Value 5)
   \<and> (\<Sum>owner\<leftarrow>[Value ''A'', Value ''B'', Value ''C''].
         balance_of (lookupBalance CONFIG failing_client owner)) = 15
   \<and> aggregateBalances CONFIG failing_client [Value ''A'', Value ''B'', Value ''C''] =
       Inl [RpcError (Some ''timeout'')]
   \<and> aggregateBalances (CONFIG\<lparr>BALANCE_BATCH_SIZE := 1\<rparr>) failing_client
         [Value ''A'', Value ''B'', Value ''C''] =
       Inl [RpcError (Some ''timeout'')]"
proof -
  have l: "lookupBalance CONFIG failing_client (Value ''A'') = Inr (Value 10)"
    "lookupBalance CONFIG failing_client (Value ''B'') = Inl (RpcError (Some ''timeout''))"
    "lookupBalance CONFIG failing_client (Value ''C'') = Inr (Value 5)"
    by (simp_all add: lookup_evaluation failing_client_def)
  have l1: "lookupBalance (CONFIG\<lparr>BALANCE_BATCH_SIZE := Suc 0\<rparr>) failing_client (Value ''A'') =
      Inr (Value 10)"
    "lookupBalance (CONFIG\<lparr>BALANCE_BATCH_SIZE := Suc 0\<rparr>) failing_client (Value ''B'') =
      Inl (RpcError (Some ''timeout''))"
    by (simp_all add: lookup_evaluation failing_client_def)
  have sum: "(\<Sum>owner\<leftarrow>[Value ''A'', Value ''B'', Value ''C''].
         balance_of (lookupBalance CONFIG failing_client owner)) = 15"
    by (simp add: l balance_of_def contribution_def)
  have c: "chunk [Value ''A'', Value ''B'', Value ''C''] (BALANCE_BATCH_SIZE CONFIG) =
      Inr [[Value ''A'', Value ''B'', Value ''C'' :: string js_value]]"
    by (simp add: chunk_def Array_from_def slice_def CONFIG_def upt_rec)
  have c1: "chunk [Value ''A'', Value ''B'', Value ''C''] (Suc 0) =
      Inr [[Value ''A''], [Value ''B''], [Value ''C'' :: string js_value]]"
    by (simp add: chunk_def Array_from_def slice_def upt_rec)
  have one: "aggregateBalances CONFIG failing_client [Value ''A'', Value ''B'', Value ''C''] =
      Inl [RpcError (Some ''timeout'')]"
    by (simp add: aggregateBalances_def c l Promise_all_def)
  have each: "aggregateBalances (CONFIG\<lparr>BALANCE_BATCH_SIZE := Suc 0\<rparr>) failing_client
         [Value ''A'', Value ''B'', Value ''C''] =
       Inl [RpcError (Some ''timeout'')]"
    by (simp add: aggregateBalances_def c1 l1 Promise_all_def absorb_balance_def)
  from l sum one each show ?thesis by simp
qed

end
